theory Spec2Isabelle
  imports Main "HOL-Library.Sublist"
begin

section \<open>The test harness of picoquic\_sp.c\<close>

text \<open>
  The program is one C file: a table of named tests, \<open>do_one_test\<close>, \<open>usage\<close>,
  \<open>get_test_number\<close> and \<open>main\<close>. The model follows \<open>main\<close> phase by phase:
  option parsing (the \<open>getopt\<close> loop), test selection, the sweep over the table, and
  the report with its optional retry pass.

  The four test functions are only declared in the header; a test function is a parameter
  here. It reads and changes the state of the world (\<open>'w\<close>) and returns a C \<open>int\<close>, so the
  same test may fail once and pass when it is called again. The table itself is a parameter
  \<open>tt\<close> of every function; \<open>test_table\<close> below is the table of the source.
\<close>

subsection \<open>Data\<close>

record 'w picoquic_test_def_t =
  test_name :: string
  test_fn :: "'w \<Rightarrow> int \<times> 'w"

datatype test_status_t = test_not_run | test_excluded | test_success | test_failed

definition test_table ::
  "('w \<Rightarrow> int \<times> 'w) \<Rightarrow> ('w \<Rightarrow> int \<times> 'w) \<Rightarrow> ('w \<Rightarrow> int \<times> 'w) \<Rightarrow> ('w \<Rightarrow> int \<times> 'w) \<Rightarrow>
     'w picoquic_test_def_t list" where
  "test_table dtn_basic_test dtn_data_test dtn_silence_test dtn_twenty_test =
     [\<lparr>test_name = ''dtn_basic'', test_fn = dtn_basic_test\<rparr>,
      \<lparr>test_name = ''dtn_data'', test_fn = dtn_data_test\<rparr>,
      \<lparr>test_name = ''dtn_silence'', test_fn = dtn_silence_test\<rparr>,
      \<lparr>test_name = ''dtn_twenty'', test_fn = dtn_twenty_test\<rparr>]"

definition nb_tests :: "'w picoquic_test_def_t list \<Rightarrow> nat" where
  "nb_tests tt = length tt"

text \<open>
  What the process does to the outside: a line on \<open>stdout\<close>, a line on \<open>stderr\<close>, a call
  of the test function of entry \<open>i\<close> that returned \<open>r\<close> (\<open>Run i r\<close>), and the calls into the
  picoquic library. \<open>fflush\<close> has no effect that the model can see and is left out.
\<close>

datatype event =
    Stdout string
  | Stderr string
  | Run nat int
  | Debug_printf_push_stream
  | Debug_printf_suspend
  | Debug_printf_resume
  | Set_solution_dir string

record 'w io =
  log :: "event list"
  world :: 'w

definition emit :: "event \<Rightarrow> ('w, 'z) io_scheme \<Rightarrow> ('w, 'z) io_scheme" where
  "emit e s = s\<lparr>log := log s @ [e]\<rparr>"

subsection \<open>Printing numbers (\<open>%d\<close> and \<open>%zu\<close>)\<close>

function show_nat :: "nat \<Rightarrow> string" where
  "show_nat n =
     (if n < 10 then [''0123456789'' ! n]
      else show_nat (n div 10) @ [''0123456789'' ! (n mod 10)])"
  by pat_completeness auto
termination
  by (relation "measure (\<lambda>n. n)") auto

declare show_nat.simps [simp del]

definition show_int :: "int \<Rightarrow> string" where
  "show_int i = (if i < 0 then CHR ''-'' # show_nat (nat (- i)) else show_nat (nat i))"

subsection \<open>\<open>do_one_test\<close>\<close>

definition do_one_test ::
  "'w picoquic_test_def_t list \<Rightarrow> nat \<Rightarrow> (string \<Rightarrow> event) \<Rightarrow> ('w, 'z) io_scheme \<Rightarrow>
     int \<times> ('w, 'z) io_scheme" where
  "do_one_test tt i F s =
     (if i \<ge> nb_tests tt then
        (- 1, emit (F (''Invalid test number '' @ show_nat i @ [CHR 0x0A])) s)
      else
        let s1 = emit (F (''Starting test number '' @ show_nat i @ '', '' @
                          test_name (tt ! i) @ [CHR 0x0A])) s;
            (r, w) = test_fn (tt ! i) (world s1);
            s2 = emit (Run i r) (s1\<lparr>world := w\<rparr>)
        in if r = 0 then (r, emit (F (''    Success.'' @ [CHR 0x0A])) s2)
           else (r, emit (F (''    Fails, error: '' @ show_int r @ ''.'' @ [CHR 0x0A])) s2))"

subsection \<open>\<open>usage\<close>\<close>

text \<open>
  The inner loop of \<open>usage\<close> prints up to four names and shares its index \<open>x\<close> with the
  outer loop, which increments it once more after each row.
\<close>

function usage_row ::
  "'w picoquic_test_def_t list \<Rightarrow> nat \<Rightarrow> nat \<Rightarrow> string list \<Rightarrow> nat \<times> string list" where
  "usage_row tt j x acc =
     (if j < 4 \<and> x < nb_tests tt
      then usage_row tt (j + 1) (x + 1) (acc @ [test_name (tt ! x) @ '', ''])
      else (x, acc))"
  by pat_completeness auto
termination
  by (relation "measure (\<lambda>(tt, j, x, acc). 4 - j)") auto

declare usage_row.simps [simp del]

lemma usage_row_ge: "x \<le> fst (usage_row tt j x acc)"
proof (induction tt j x acc rule: usage_row.induct)
  case (1 tt j x acc)
  show ?case
  proof (cases "j < 4 \<and> x < nb_tests tt")
    case True
    with 1 have "x + 1 \<le> fst (usage_row tt (j + 1) (x + 1) (acc @ [test_name (tt ! x) @ '', '']))"
      by simp
    with True show ?thesis
      by (simp add: usage_row.simps [of tt j x acc])
  next
    case False
    then show ?thesis
      by (auto simp add: usage_row.simps [of tt j x acc])
  qed
qed

function usage_rows ::
  "'w picoquic_test_def_t list \<Rightarrow> nat \<Rightarrow> string list \<Rightarrow> string list" where
  "usage_rows tt x acc =
     (if x < nb_tests tt then
        (case usage_row tt 0 x (acc @ [''    '']) of
           (x1, acc1) \<Rightarrow> usage_rows tt (x1 + 1) (acc1 @ [[CHR 0x0A]]))
      else acc)"
  by pat_completeness auto
termination
proof (relation "measure (\<lambda>(tt, x, acc). nb_tests tt - x)")
  show "wf (measure (\<lambda>(tt, x, acc). nb_tests tt - x))"
    by simp
next
  fix tt :: "'w picoquic_test_def_t list" and x :: nat and acc :: "string list"
    and x1 :: nat and acc1 :: "string list"
  assume lt: "x < nb_tests tt"
    and r: "(x1, acc1) = usage_row tt 0 x (acc @ [''    ''])"
  have "x \<le> fst (usage_row tt 0 x (acc @ [''    '']))"
    by (rule usage_row_ge)
  with r have "x \<le> x1"
    by (metis fst_conv)
  with lt show "((tt, x1 + 1, acc1 @ [[CHR 0x0A]]), (tt, x, acc))
      \<in> measure (\<lambda>(tt, x, acc). nb_tests tt - x)"
    by simp
qed

declare usage_rows.simps [simp del]

definition usage_text :: "'w picoquic_test_def_t list \<Rightarrow> string \<Rightarrow> string list" where
  "usage_text tt argv0 =
     usage_rows tt 0
       [''PicoQUIC test execution'' @ [CHR 0x0A],
        ''Usage: picoquic_ct [-x <excluded>] [<list of tests]'' @ [CHR 0x0A],
        [CHR 0x0A] @ ''Usage: '' @ argv0 @ '' [test1 [test2 ..[testN]]]'' @ [CHR 0x0A, CHR 0x0A],
        ''   Or: '' @ argv0 @ '' [-x test]*'',
        ''Valid test names are: '' @ [CHR 0x0A]]
     @ [''Options: '' @ [CHR 0x0A],
        ''  -x test           Do not run the specified test.'' @ [CHR 0x0A],
        ''  -o n1 n2          Only run test numbers in range [n1,n2]'',
        ''  -s nnn            Run stress for nnn minutes.'' @ [CHR 0x0A],
        ''  -f nnn            Run fuzz for nnn minutes.'' @ [CHR 0x0A],
        ''  -c nnn ccc        Run connection stress for nnn minutes, ccc connections.'' @ [CHR 0x0A],
        ''  -d ppp uuu dir    Run connection ddoss for ppp packets, uuu usec intervals,'' @ [CHR 0x0A],
        ''  -F nnn            Run the corrupt file fuzzer nnn times,'' @ [CHR 0x0A],
        ''                    logs in dir. No logs if dir='' @ [CHR 0x22] @ ''-'' @ [CHR 0x22],
        ''  -n                Disable debug prints.'' @ [CHR 0x0A],
        ''  -r                Retry failed tests with debug print enabled.'' @ [CHR 0x0A],
        ''  -h                Print this help message'' @ [CHR 0x0A],
        ''  -S solution_dir   Set the path to the source files to find the default files'' @ [CHR 0x0A]]"

definition usage ::
  "'w picoquic_test_def_t list \<Rightarrow> string \<Rightarrow> ('w, 'z) io_scheme \<Rightarrow> int \<times> ('w, 'z) io_scheme" where
  "usage tt argv0 s = (- 1, s\<lparr>log := log s @ map Stderr (usage_text tt argv0)\<rparr>)"

subsection \<open>\<open>get_test_number\<close>\<close>

text \<open>The loop has no \<open>break\<close>: the last entry with the name wins.\<close>

function get_test_number_loop ::
  "'w picoquic_test_def_t list \<Rightarrow> string \<Rightarrow> nat \<Rightarrow> int \<Rightarrow> int" where
  "get_test_number_loop tt name i test_number =
     (if i < nb_tests tt then
        get_test_number_loop tt name (i + 1)
          (if name = test_name (tt ! i) then int i else test_number)
      else test_number)"
  by pat_completeness auto
termination
  by (relation "measure (\<lambda>(tt, name, i, test_number). nb_tests tt - i)") auto

declare get_test_number_loop.simps [simp del]

definition get_test_number :: "'w picoquic_test_def_t list \<Rightarrow> string \<Rightarrow> int" where
  "get_test_number tt name = get_test_number_loop tt name 0 (- 1)"

subsection \<open>The local variables of \<open>main\<close>\<close>

text \<open>
  One record holds the locals of \<open>main\<close>, with the names and the C types of the source
  (\<open>int\<close> as \<open>int\<close>, \<open>size_t\<close> as \<open>nat\<close>; no counter can leave the range of \<open>int\<close>, each
  is bounded by the number of tests), and the variables that \<open>getopt\<close> shares with its
  caller: \<open>optind\<close>, \<open>optarg\<close> and \<open>sp\<close>, the position inside the argument being scanned.
\<close>

record 'w main_state = "'w io" +
  ret :: int
  nb_test_tried :: int
  nb_test_failed :: int
  stress_minutes :: int
  auto_bypass :: int
  cf_rounds :: int
  test_status :: "test_status_t list"
  do_fuzz :: int
  do_stress :: int
  do_cnx_stress :: int
  do_cnx_ddos :: int
  do_cf_fuzz :: int
  disable_debug :: int
  retry_failed_test :: int
  cnx_stress_minutes :: int
  cnx_stress_nb_cnx :: int
  cnx_ddos_packets :: int
  cnx_ddos_interval :: int
  first_test :: nat
  last_test :: nat
  cnx_ddos_dir :: "string option"
  optind :: nat
  optarg :: "string option"
  sp :: nat

text \<open>
  How a step of \<open>main\<close> ends: it goes on (at the end of \<open>main\<close>: it returns \<open>ret\<close>), the
  process leaves through \<open>exit(0)\<close>, or the C standard gives the step no meaning.
\<close>

datatype 's flow = Normal 's | Exit_0 's | Undefined_behaviour

subsection \<open>The C library: \<open>atoi\<close> and \<open>getopt\<close>\<close>

text \<open>
  \<open>atoi\<close> skips white space, reads an optional sign and the decimal digits that follow.
  Its behaviour is undefined on a null pointer and when the value does not fit an \<open>int\<close>
  (32 bits): the model returns \<open>None\<close> there.
\<close>

definition isspace :: "char \<Rightarrow> bool" where
  "isspace c = (c \<in> set [CHR '' '', CHR 0x09, CHR 0x0A, CHR 0x0B, CHR 0x0C, CHR 0x0D])"

definition digit_val :: "char \<Rightarrow> int option" where
  "digit_val = map_of
     [(CHR ''0'', 0), (CHR ''1'', 1), (CHR ''2'', 2), (CHR ''3'', 3), (CHR ''4'', 4),
      (CHR ''5'', 5), (CHR ''6'', 6), (CHR ''7'', 7), (CHR ''8'', 8), (CHR ''9'', 9)]"

fun digits_val :: "string \<Rightarrow> int \<Rightarrow> int" where
  "digits_val [] acc = acc"
| "digits_val (c # cs) acc =
     (case digit_val c of None \<Rightarrow> acc | Some d \<Rightarrow> digits_val cs (10 * acc + d))"

definition atoi :: "string option \<Rightarrow> int option" where
  "atoi p =
     (case p of
        None \<Rightarrow> None
      | Some str \<Rightarrow>
          let t = dropWhile isspace str;
              v = (if t \<noteq> [] \<and> hd t = CHR ''-'' then - digits_val (tl t) 0
                   else if t \<noteq> [] \<and> hd t = CHR ''+'' then digits_val (tl t) 0
                   else digits_val t 0)
          in if - 2147483648 \<le> v \<and> v \<le> 2147483647 then Some v else None)"

text \<open>\<open>argv[i]\<close>: the vector ends with a null pointer.\<close>

definition argv_at :: "string list \<Rightarrow> nat \<Rightarrow> string option" where
  "argv_at argv i = (if i < length argv then Some (argv ! i) else None)"

text \<open>What \<open>%s\<close> prints; the C library of GNU prints a null pointer as \<open>(null)\<close>.\<close>

definition str_or_null :: "string option \<Rightarrow> string" where
  "str_or_null p = (case p of None \<Rightarrow> ''(null)'' | Some str \<Rightarrow> str)"

text \<open>
  \<open>getopt\<close> is the one of POSIX: it scans the arguments from left to right, stops at
  the first one that is not an option (or after \<open>--\<close>), lets options without argument
  share one \<open>-\<close>, and takes the argument of an option from the rest of the same word or,
  when there is none, from the next word. It returns \<open>?\<close> for a letter that is not in the
  option string and for a missing argument, and \<open>-1\<close> (here \<open>None\<close>) at the end. It sets
  \<open>optarg\<close> afresh at each call. Its own diagnostics on \<open>stderr\<close> are not part of the model.
\<close>

definition optstring :: string where
  "optstring = ''c:d:f:F:s:S:x:o:nrh''"

fun opt_spec :: "string \<Rightarrow> char \<Rightarrow> bool option" where
  "opt_spec [] c = None"
| "opt_spec (x # xs) c =
     (if x = c \<and> c \<noteq> CHR '':'' then Some (xs \<noteq> [] \<and> hd xs = CHR '':'')
      else opt_spec xs c)"

definition getopt :: "string list \<Rightarrow> 'w main_state \<Rightarrow> char option \<times> 'w main_state" where
  "getopt argv s0 =
     (let s = s0\<lparr>optarg := None\<rparr> in
      if optind s \<ge> length argv then (None, s)
      else
        let a = argv ! optind s in
        if sp s = 1 \<and> (length a < 2 \<or> hd a \<noteq> CHR ''-'') then (None, s)
        else if sp s = 1 \<and> a = ''--'' then (None, s\<lparr>optind := optind s + 1\<rparr>)
        else if sp s \<ge> length a then (Some (CHR ''?''), s\<lparr>optind := optind s + 1, sp := 1\<rparr>)
        else
          let c = a ! sp s in
          (case opt_spec optstring c of
             None \<Rightarrow>
               (Some (CHR ''?''),
                if sp s + 1 \<ge> length a then s\<lparr>optind := optind s + 1, sp := 1\<rparr>
                else s\<lparr>sp := sp s + 1\<rparr>)
           | Some False \<Rightarrow>
               (Some c,
                if sp s + 1 \<ge> length a then s\<lparr>optind := optind s + 1, sp := 1\<rparr>
                else s\<lparr>sp := sp s + 1\<rparr>)
           | Some True \<Rightarrow>
               if sp s + 1 < length a then
                 (Some c, s\<lparr>optarg := Some (drop (sp s + 1) a),
                            optind := optind s + 1, sp := 1\<rparr>)
               else if optind s + 1 \<ge> length argv then
                 (Some (CHR ''?''), s\<lparr>optind := optind s + 1, sp := 1\<rparr>)
               else
                 (Some c, s\<lparr>optarg := Some (argv ! (optind s + 1)),
                            optind := optind s + 2, sp := 1\<rparr>)))"

subsection \<open>Option parsing: the \<open>getopt\<close> loop of \<open>main\<close>\<close>

definition argv0 :: "string list \<Rightarrow> string" where
  "argv0 argv = str_or_null (argv_at argv 0)"

text \<open>The recurring pair \<open>fprintf(stderr, ...); ret = usage(argv[0]);\<close>.\<close>

definition fail_usage ::
  "'w picoquic_test_def_t list \<Rightarrow> string list \<Rightarrow> string \<Rightarrow> 'w main_state \<Rightarrow> 'w main_state" where
  "fail_usage tt argv msg s =
     (case usage tt (argv0 argv) (emit (Stderr msg) s) of (r, s1) \<Rightarrow> s1\<lparr>ret := r\<rparr>)"

text \<open>
  \<open>case 'x'\<close>: step back to the argument of the option and exclude every name up to the
  next word that starts with \<open>-\<close>. After an unknown name the loop goes on to the end of
  the group.
\<close>

function x_loop ::
  "'w picoquic_test_def_t list \<Rightarrow> string list \<Rightarrow> 'w main_state \<Rightarrow> 'w main_state" where
  "x_loop tt argv s =
     (if optind s < length argv then
        let tn = argv ! optind s in
        if tn \<noteq> [] \<and> hd tn = CHR ''-'' then s
        else
          let test_number = get_test_number tt tn;
              s1 = (if test_number < 0
                    then fail_usage tt argv (''Incorrect test name: '' @ tn @ [CHR 0x0A]) s
                    else s\<lparr>test_status := (test_status s)[nat test_number := test_excluded]\<rparr>)
          in x_loop tt argv (s1\<lparr>optind := optind s + 1\<rparr>)
      else s)"
  by pat_completeness auto
termination
  by (relation "measure (\<lambda>(tt, argv, s). length argv - optind s)") auto

declare x_loop.simps [simp del]

definition opt_x ::
  "'w picoquic_test_def_t list \<Rightarrow> string list \<Rightarrow> 'w main_state \<Rightarrow> 'w main_state flow" where
  "opt_x tt argv s = Normal (x_loop tt argv (s\<lparr>optind := optind s - 1\<rparr>))"

definition opt_o ::
  "'w picoquic_test_def_t list \<Rightarrow> string list \<Rightarrow> 'w main_state \<Rightarrow> 'w main_state flow" where
  "opt_o tt argv s =
     (if optind s + 1 > length argv then
        Normal (fail_usage tt argv (''option requires more arguments -- o'' @ [CHR 0x0A]) s)
      else
        (case atoi (optarg s) of
           None \<Rightarrow> Undefined_behaviour
         | Some i_first_test \<Rightarrow>
             (case atoi (argv_at argv (optind s)) of
                None \<Rightarrow> Undefined_behaviour
              | Some i_last_test \<Rightarrow>
                  let s1 = s\<lparr>optind := optind s + 1\<rparr> in
                  if i_first_test < 0 \<or> i_last_test < 0 then
                    Normal (fail_usage tt argv
                      (''Incorrect first/last: '' @ str_or_null (optarg s1) @ '' '' @
                       str_or_null (argv_at argv (optind s1 - 1)) @ [CHR 0x0A]) s1)
                  else
                    Normal (s1\<lparr>first_test := nat i_first_test,
                                last_test := nat i_last_test\<rparr>))))"

definition opt_f ::
  "'w picoquic_test_def_t list \<Rightarrow> string list \<Rightarrow> 'w main_state \<Rightarrow> 'w main_state flow" where
  "opt_f tt argv s =
     (case atoi (optarg s) of
        None \<Rightarrow> Undefined_behaviour
      | Some m \<Rightarrow>
          let s1 = s\<lparr>do_fuzz := 1, stress_minutes := m\<rparr> in
          if m \<le> 0 then
            Normal (fail_usage tt argv
              (''Incorrect stress minutes: '' @ str_or_null (optarg s1) @ [CHR 0x0A]) s1)
          else Normal s1)"

definition opt_F ::
  "'w picoquic_test_def_t list \<Rightarrow> string list \<Rightarrow> 'w main_state \<Rightarrow> 'w main_state flow" where
  "opt_F tt argv s =
     (case atoi (optarg s) of
        None \<Rightarrow> Undefined_behaviour
      | Some m \<Rightarrow>
          let s1 = s\<lparr>do_cf_fuzz := 1, cf_rounds := m\<rparr> in
          if m \<le> 0 then
            Normal (fail_usage tt argv
              (''Incorrect number of cf_fuzz rounds: '' @ str_or_null (optarg s1) @ [CHR 0x0A]) s1)
          else Normal s1)"

definition opt_s ::
  "'w picoquic_test_def_t list \<Rightarrow> string list \<Rightarrow> 'w main_state \<Rightarrow> 'w main_state flow" where
  "opt_s tt argv s =
     (case atoi (optarg s) of
        None \<Rightarrow> Undefined_behaviour
      | Some m \<Rightarrow>
          let s1 = s\<lparr>do_stress := 1, stress_minutes := m\<rparr> in
          if m \<le> 0 then
            Normal (fail_usage tt argv
              (''Incorrect stress minutes: '' @ str_or_null (optarg s1) @ [CHR 0x0A]) s1)
          else Normal s1)"

text \<open>
  \<open>case 'c'\<close> and \<open>case 'd'\<close> report a missing argument and read it all the same:
  \<open>atoi(argv[optind++])\<close> is then \<open>atoi\<close> of the null pointer that ends \<open>argv\<close>.
  \<open>case 'd'\<close> tests \<open>cnx_stress_nb_cnx\<close>, not the interval it has just read.
\<close>

definition opt_c ::
  "'w picoquic_test_def_t list \<Rightarrow> string list \<Rightarrow> 'w main_state \<Rightarrow> 'w main_state flow" where
  "opt_c tt argv s =
     (let s1 = (if optind s + 1 > length argv
                then fail_usage tt argv (''option requires more arguments -- c'' @ [CHR 0x0A]) s
                else s)
      in case atoi (optarg s1) of
           None \<Rightarrow> Undefined_behaviour
         | Some m \<Rightarrow>
             (case atoi (argv_at argv (optind s1)) of
                None \<Rightarrow> Undefined_behaviour
              | Some n \<Rightarrow>
                  let s2 = s1\<lparr>do_cnx_stress := 1, cnx_stress_minutes := m,
                              cnx_stress_nb_cnx := n, optind := optind s1 + 1\<rparr> in
                  if m \<le> 0 then
                    Normal (fail_usage tt argv
                      (''Incorrect cnx stress minutes: '' @ str_or_null (optarg s2) @
                       [CHR 0x0A]) s2)
                  else if n < 0 then
                    Normal (fail_usage tt argv
                      (''Incorrect cnx stress number of connections: '' @
                       str_or_null (argv_at argv (optind s2 - 1)) @ [CHR 0x0A]) s2)
                  else Normal s2))"

definition opt_d ::
  "'w picoquic_test_def_t list \<Rightarrow> string list \<Rightarrow> 'w main_state \<Rightarrow> 'w main_state flow" where
  "opt_d tt argv s =
     (let s1 = (if optind s + 2 > length argv
                then fail_usage tt argv (''option requires more arguments -- c'' @ [CHR 0x0A]) s
                else s)
      in case atoi (optarg s1) of
           None \<Rightarrow> Undefined_behaviour
         | Some m \<Rightarrow>
             (case atoi (argv_at argv (optind s1)) of
                None \<Rightarrow> Undefined_behaviour
              | Some n \<Rightarrow>
                  let s2 = s1\<lparr>do_cnx_ddos := 1, cnx_ddos_packets := m,
                              cnx_ddos_interval := n,
                              cnx_ddos_dir := argv_at argv (optind s1 + 1),
                              optind := optind s1 + 2\<rparr> in
                  if m \<le> 0 then
                    Normal (fail_usage tt argv
                      (''Incorrect cnx ddos packets: '' @ str_or_null (optarg s2) @
                       [CHR 0x0A]) s2)
                  else if cnx_stress_nb_cnx s2 < 0 then
                    Normal (fail_usage tt argv
                      (''Incorrect cnx ddos interval: '' @
                       str_or_null (argv_at argv (optind s2 - 1)) @ [CHR 0x0A]) s2)
                  else Normal s2))"

text \<open>The \<open>switch\<close>. \<open>case 'h'\<close> prints the usage and leaves the process with \<open>exit(0)\<close>.\<close>

definition handle_opt ::
  "'w picoquic_test_def_t list \<Rightarrow> string list \<Rightarrow> char \<Rightarrow> 'w main_state \<Rightarrow> 'w main_state flow" where
  "handle_opt tt argv opt s =
     (if opt = CHR ''x'' then opt_x tt argv s
      else if opt = CHR ''o'' then opt_o tt argv s
      else if opt = CHR ''f'' then opt_f tt argv s
      else if opt = CHR ''F'' then opt_F tt argv s
      else if opt = CHR ''s'' then opt_s tt argv s
      else if opt = CHR ''c'' then opt_c tt argv s
      else if opt = CHR ''d'' then opt_d tt argv s
      else if opt = CHR ''S'' then Normal (emit (Set_solution_dir (str_or_null (optarg s))) s)
      else if opt = CHR ''n'' then Normal (s\<lparr>disable_debug := 1\<rparr>)
      else if opt = CHR ''r'' then Normal (s\<lparr>retry_failed_test := 1\<rparr>)
      else if opt = CHR ''h'' then Exit_0 (snd (usage tt (argv0 argv) s))
      else (case usage tt (argv0 argv) s of (r, s1) \<Rightarrow> Normal (s1\<lparr>ret := r\<rparr>)))"

text \<open>
  \<open>while (ret == 0 && (opt = getopt(...)) != -1)\<close>. The loop need not end: after
  \<open>-xname\<close> in one word, \<open>optind--\<close> puts \<open>getopt\<close> back on the same word. The model
  counts the iterations down from \<open>fuel\<close>; \<open>None\<close> is a loop that has not ended yet.
\<close>

fun parse_loop ::
  "nat \<Rightarrow> 'w picoquic_test_def_t list \<Rightarrow> string list \<Rightarrow> 'w main_state \<Rightarrow>
     'w main_state flow option" where
  "parse_loop 0 tt argv s = None"
| "parse_loop (Suc fuel) tt argv s =
     (if ret s \<noteq> 0 then Some (Normal s)
      else
        (case getopt argv s of
           (None, s1) \<Rightarrow> Some (Normal s1)
         | (Some opt, s1) \<Rightarrow>
             (case handle_opt tt argv opt s1 of
                Normal s2 \<Rightarrow> parse_loop fuel tt argv s2
              | Exit_0 s2 \<Rightarrow> Some (Exit_0 s2)
              | Undefined_behaviour \<Rightarrow> Some Undefined_behaviour)))"

subsection \<open>Test selection\<close>

function exclude_loop ::
  "'w picoquic_test_def_t list \<Rightarrow> nat \<Rightarrow> 'w main_state \<Rightarrow> 'w main_state" where
  "exclude_loop tt i s =
     (if i < nb_tests tt
      then exclude_loop tt (i + 1) (s\<lparr>test_status := (test_status s)[i := test_excluded]\<rparr>)
      else s)"
  by pat_completeness auto
termination
  by (relation "measure (\<lambda>(tt, i, s). nb_tests tt - i)") auto

declare exclude_loop.simps [simp del]

text \<open>
  The trailing list of names. The message for an unknown name prints \<open>optarg\<close>, not the
  name.
\<close>

function select_loop ::
  "'w picoquic_test_def_t list \<Rightarrow> string list \<Rightarrow> 'w main_state \<Rightarrow> 'w main_state" where
  "select_loop tt argv s =
     (if optind s < length argv then
        let test_number = get_test_number tt (argv ! optind s);
            s1 = (if test_number < 0
                  then fail_usage tt argv
                         (''Incorrect test name: '' @ str_or_null (optarg s) @ [CHR 0x0A]) s
                  else s\<lparr>test_status := (test_status s)[nat test_number := test_not_run]\<rparr>)
        in select_loop tt argv (s1\<lparr>optind := optind s + 1\<rparr>)
      else s)"
  by pat_completeness auto
termination
  by (relation "measure (\<lambda>(tt, argv, s). length argv - optind s)") auto

declare select_loop.simps [simp del]

definition bypass_for_stressers ::
  "'w picoquic_test_def_t list \<Rightarrow> 'w main_state \<Rightarrow> 'w main_state" where
  "bypass_for_stressers tt s =
     (if do_stress s \<noteq> 0 \<or> do_fuzz s \<noteq> 0 \<or> do_cnx_stress s \<noteq> 0 \<or> do_cnx_ddos s \<noteq> 0 \<or>
         do_cf_fuzz s \<noteq> 0
      then exclude_loop tt 0 (s\<lparr>auto_bypass := 1\<rparr>)
      else s)"

definition select_listed ::
  "'w picoquic_test_def_t list \<Rightarrow> string list \<Rightarrow> 'w main_state \<Rightarrow> 'w main_state" where
  "select_listed tt argv s =
     (if optind s < length argv
      then select_loop tt argv (exclude_loop tt 0 (s\<lparr>auto_bypass := 1\<rparr>))
      else s)"

definition select_tests ::
  "'w picoquic_test_def_t list \<Rightarrow> string list \<Rightarrow> 'w main_state \<Rightarrow> 'w main_state" where
  "select_tests tt argv s = select_listed tt argv (bypass_for_stressers tt s)"

definition set_debug :: "'w main_state \<Rightarrow> 'w main_state" where
  "set_debug s =
     (if disable_debug s \<noteq> 0 then emit Debug_printf_suspend s else emit Debug_printf_resume s)"

subsection \<open>The sweep\<close>

definition sweep_body ::
  "'w picoquic_test_def_t list \<Rightarrow> nat \<Rightarrow> 'w main_state \<Rightarrow> 'w main_state" where
  "sweep_body tt i s =
     (if test_status s ! i = test_not_run then
        let s1 = s\<lparr>nb_test_tried := nb_test_tried s + 1\<rparr> in
        if i \<ge> first_test s1 \<and> i \<le> last_test s1 then
          (case do_one_test tt i Stdout s1 of
             (r, s2) \<Rightarrow>
               if r \<noteq> 0 then
                 s2\<lparr>test_status := (test_status s2)[i := test_failed],
                    nb_test_failed := nb_test_failed s2 + 1,
                    ret := - 1\<rparr>
               else s2\<lparr>test_status := (test_status s2)[i := test_success]\<rparr>)
        else s1\<lparr>test_status := (test_status s1)[i := test_success]\<rparr>
      else if auto_bypass s = 0 \<and> test_status s ! i = test_excluded then
        emit (Stdout (''Test number '' @ show_int (int i) @ '' ('' @ test_name (tt ! i) @
                      '') is bypassed.'' @ [CHR 0x0A])) s
      else s)"

function sweep_loop ::
  "'w picoquic_test_def_t list \<Rightarrow> nat \<Rightarrow> 'w main_state \<Rightarrow> 'w main_state" where
  "sweep_loop tt i s =
     (if i < nb_tests tt then sweep_loop tt (i + 1) (sweep_body tt i s) else s)"
  by pat_completeness auto
termination
  by (relation "measure (\<lambda>(tt, i, s). nb_tests tt - i)") auto

declare sweep_loop.simps [simp del]

definition sweep :: "'w picoquic_test_def_t list \<Rightarrow> 'w main_state \<Rightarrow> 'w main_state" where
  "sweep tt s = (if ret s = 0 then sweep_loop tt 0 s else s)"

subsection \<open>The report and the retry pass\<close>

definition summary_line :: "int \<Rightarrow> int \<Rightarrow> string" where
  "summary_line tried failed =
     ''Tried '' @ show_int tried @ '' tests, '' @ show_int failed @ '' fail'' @
     (if failed > 1 then [] else ''s'') @ ''.'' @ [CHR 0x0A]"

function failed_names_loop ::
  "'w picoquic_test_def_t list \<Rightarrow> nat \<Rightarrow> 'w main_state \<Rightarrow> 'w main_state" where
  "failed_names_loop tt i s =
     (if i < nb_tests tt then
        failed_names_loop tt (i + 1)
          (if test_status s ! i = test_failed
           then emit (Stdout (test_name (tt ! i) @ '' '')) s
           else s)
      else s)"
  by pat_completeness auto
termination
  by (relation "measure (\<lambda>(tt, i, s). nb_tests tt - i)") auto

declare failed_names_loop.simps [simp del]

definition cannot_retry :: "string \<Rightarrow> bool" where
  "cannot_retry name =
     (''stress'' = name \<or> ''fuzz'' = name \<or> ''fuzz_initial'' = name \<or>
      name = ''cnx_stress'' \<or> name = ''cnx_ddos'' \<or> name = ''eccf_corrupted_fuzz'')"

definition retry_body ::
  "'w picoquic_test_def_t list \<Rightarrow> nat \<Rightarrow> 'w main_state \<Rightarrow> 'w main_state" where
  "retry_body tt i s =
     (if test_status s ! i = test_failed then
        if cannot_retry (test_name (tt ! i)) then
          (emit (Stdout (''Cannot retry '' @ test_name (tt ! i) @ '':'' @ [CHR 0x0A])) s)
            \<lparr>ret := - 1\<rparr>
        else
          (case do_one_test tt i Stdout
                  (emit (Stdout (''Retrying '' @ test_name (tt ! i) @ '':'' @ [CHR 0x0A])) s) of
             (r, s1) \<Rightarrow>
               if r \<noteq> 0 then s1\<lparr>test_status := (test_status s1)[i := test_failed], ret := - 1\<rparr>
               else s1\<lparr>test_status := (test_status s1)[i := test_success]\<rparr>)
      else s)"

function retry_loop ::
  "'w picoquic_test_def_t list \<Rightarrow> nat \<Rightarrow> 'w main_state \<Rightarrow> 'w main_state" where
  "retry_loop tt i s =
     (if i < nb_tests tt then retry_loop tt (i + 1) (retry_body tt i s) else s)"
  by pat_completeness auto
termination
  by (relation "measure (\<lambda>(tt, i, s). nb_tests tt - i)") auto

declare retry_loop.simps [simp del]

definition retry_pass :: "'w picoquic_test_def_t list \<Rightarrow> 'w main_state \<Rightarrow> 'w main_state" where
  "retry_pass tt s =
     (let s1 = retry_loop tt 0 ((emit Debug_printf_resume s)\<lparr>ret := 0\<rparr>) in
      if ret s1 = 0 then
        emit (Stdout (''All tests pass after second try.'' @ [CHR 0x0A])) s1
      else
        emit (Stdout [CHR 0x0A])
          (failed_names_loop tt 0 (emit (Stdout ''Still failing: '') s1)))"

definition report :: "'w picoquic_test_def_t list \<Rightarrow> 'w main_state \<Rightarrow> 'w main_state" where
  "report tt s =
     (let s1 = (if nb_test_tried s > 1
                then emit (Stdout (summary_line (nb_test_tried s) (nb_test_failed s))) s
                else s)
      in if nb_test_failed s1 > 0 then
           let s2 = emit (Stdout [CHR 0x0A])
                      (failed_names_loop tt 0 (emit (Stdout ''Failed test(s): '') s1))
           in if disable_debug s2 \<noteq> 0 \<and> retry_failed_test s2 \<noteq> 0 then retry_pass tt s2
              else s2
         else s1)"

subsection \<open>\<open>main\<close>\<close>

text \<open>
  \<open>alloc_ok\<close> says whether \<open>calloc\<close> returned the status table; the table starts with
  every entry \<open>test_not_run\<close>. \<open>run_tests\<close> is all of \<open>main\<close> after the option loop.
\<close>

definition DEFAULT_PICOQUIC_DIR :: string where
  "DEFAULT_PICOQUIC_DIR = ''../picoquic''"

definition initial_state :: "'w picoquic_test_def_t list \<Rightarrow> 'w \<Rightarrow> 'w main_state" where
  "initial_state tt w =
     \<lparr>log = [Debug_printf_push_stream, Set_solution_dir DEFAULT_PICOQUIC_DIR], world = w,
      ret = 0, nb_test_tried = 0, nb_test_failed = 0, stress_minutes = 0, auto_bypass = 0,
      cf_rounds = 0, test_status = replicate (nb_tests tt) test_not_run,
      do_fuzz = 0, do_stress = 0, do_cnx_stress = 0, do_cnx_ddos = 0, do_cf_fuzz = 0,
      disable_debug = 0, retry_failed_test = 0, cnx_stress_minutes = 0,
      cnx_stress_nb_cnx = 0, cnx_ddos_packets = 0, cnx_ddos_interval = 0,
      first_test = 0, last_test = 10000, cnx_ddos_dir = None,
      optind = 1, optarg = None, sp = 1\<rparr>"

definition run_tests ::
  "'w picoquic_test_def_t list \<Rightarrow> string list \<Rightarrow> 'w main_state \<Rightarrow> 'w main_state" where
  "run_tests tt argv s = report tt (sweep tt (set_debug (select_tests tt argv s)))"

definition main ::
  "'w picoquic_test_def_t list \<Rightarrow> bool \<Rightarrow> nat \<Rightarrow> string list \<Rightarrow> 'w \<Rightarrow>
     'w main_state flow option" where
  "main tt alloc_ok fuel argv w =
     (if \<not> alloc_ok then
        Some (Normal ((emit (Stderr (''Could not allocate memory.'' @ [CHR 0x0A]))
                         (initial_state tt w))\<lparr>ret := - 1, test_status := []\<rparr>))
      else
        (case parse_loop fuel tt argv (initial_state tt w) of
           None \<Rightarrow> None
         | Some (Normal s) \<Rightarrow> Some (Normal (run_tests tt argv s))
         | Some (Exit_0 s) \<Rightarrow> Some (Exit_0 s)
         | Some Undefined_behaviour \<Rightarrow> Some Undefined_behaviour))"

text \<open>What can be seen of a run: the exit status of the process and its last state.\<close>

definition exit_status :: "'w main_state flow option \<Rightarrow> int option" where
  "exit_status r =
     (case r of Some (Normal s) \<Rightarrow> Some (ret s) | Some (Exit_0 s) \<Rightarrow> Some 0 | _ \<Rightarrow> None)"

definition final :: "'w main_state flow option \<Rightarrow> 'w main_state option" where
  "final r =
     (case r of Some (Normal s) \<Rightarrow> Some s | Some (Exit_0 s) \<Rightarrow> Some s | _ \<Rightarrow> None)"

text \<open>
  The calls of test functions in a log, in order, each with the entry and the result, and
  the number of calls of the test function of entry \<open>i\<close>.
\<close>

fun runs :: "event list \<Rightarrow> (nat \<times> int) list" where
  "runs [] = []"
| "runs (Run i r # es) = (i, r) # runs es"
| "runs (e # es) = runs es"

definition calls :: "nat \<Rightarrow> event list \<Rightarrow> nat" where
  "calls i lg = length (filter (\<lambda>p. fst p = i) (runs lg))"

text \<open>
  Names for two points of the report: the condition under which the retry pass runs, and
  the state in which its loop starts.
\<close>

definition retry_requested :: "'w main_state \<Rightarrow> bool" where
  "retry_requested s = (nb_test_failed s > 0 \<and> disable_debug s \<noteq> 0 \<and> retry_failed_test s \<noteq> 0)"

definition retry_start :: "'w main_state \<Rightarrow> 'w main_state" where
  "retry_start s = (emit Debug_printf_resume s)\<lparr>ret := 0\<rparr>"

text \<open>
  The line that the sweep prints for an excluded entry, and the entries named in the
  trailing list of names that starts at \<open>argv[k]\<close>.
\<close>

definition bypass_notice :: "'w picoquic_test_def_t list \<Rightarrow> nat \<Rightarrow> event" where
  "bypass_notice tt i =
     Stdout (''Test number '' @ show_int (int i) @ '' ('' @ test_name (tt ! i) @
             '') is bypassed.'' @ [CHR 0x0A])"

definition listed :: "'w picoquic_test_def_t list \<Rightarrow> string list \<Rightarrow> nat \<Rightarrow> nat \<Rightarrow> bool" where
  "listed tt argv k j = (\<exists>tn \<in> set (drop k argv). get_test_number tt tn = int j)"

definition stresser_requested :: "'w main_state \<Rightarrow> bool" where
  "stresser_requested s =
     (do_stress s \<noteq> 0 \<or> do_fuzz s \<noteq> 0 \<or> do_cnx_stress s \<noteq> 0 \<or> do_cnx_ddos s \<noteq> 0 \<or>
      do_cf_fuzz s \<noteq> 0)"

text \<open>
  The names of the \<open>-x\<close> group that starts at \<open>argv[k]\<close>, a list with a name that is
  not in the table, and the state in which the option loop ends when it ends at \<open>s\<close>.
\<close>

definition x_group :: "string list \<Rightarrow> nat \<Rightarrow> string list" where
  "x_group argv k = takeWhile (\<lambda>tn. \<not> (tn \<noteq> [] \<and> hd tn = CHR ''-'')) (drop k argv)"

definition unknown_name :: "'w picoquic_test_def_t list \<Rightarrow> string list \<Rightarrow> bool" where
  "unknown_name tt names = (\<exists>tn \<in> set names. get_test_number tt tn < 0)"

definition loop_exit :: "string list \<Rightarrow> 'w main_state \<Rightarrow> 'w main_state option" where
  "loop_exit argv s =
     (if ret s \<noteq> 0 then Some s
      else case getopt argv s of (None, s1) \<Rightarrow> Some s1 | (Some opt, s1) \<Rightarrow> None)"

text \<open>
  The states in which the condition of the option loop is evaluated during a run of
  \<open>main\<close> on \<open>argv\<close>: the first one, and the one after each iteration.
\<close>

inductive parsing ::
  "'w picoquic_test_def_t list \<Rightarrow> string list \<Rightarrow> 'w \<Rightarrow> 'w main_state \<Rightarrow> bool"
  for tt :: "'w picoquic_test_def_t list" and argv :: "string list" and w :: 'w where
  start: "parsing tt argv w (initial_state tt w)"
| step: "parsing tt argv w s \<Longrightarrow> ret s = 0 \<Longrightarrow> getopt argv s = (Some opt, s1) \<Longrightarrow>
         handle_opt tt argv opt s1 = Normal s2 \<Longrightarrow> parsing tt argv w s2"


subsection \<open>Sample tests\<close>

text \<open>
  Test functions for concrete runs. Their world is the number of calls made so far:
  \<open>passing\<close> returns 0, \<open>failing\<close> returns 3, and \<open>heisenbug\<close> returns 3 until two
  calls have been made and 0 afterwards.
\<close>

definition passing :: "nat \<Rightarrow> int \<times> nat" where
  "passing w = (0, Suc w)"

definition failing :: "nat \<Rightarrow> int \<times> nat" where
  "failing w = (3, Suc w)"

definition heisenbug :: "nat \<Rightarrow> int \<times> nat" where
  "heisenbug w = (if w < 2 then 3 else 0, Suc w)"

text \<open>A table with a test that the retry pass refuses to run again.\<close>

definition stress_table :: "nat picoquic_test_def_t list" where
  "stress_table =
     [\<lparr>test_name = ''stress'', test_fn = failing\<rparr>,
      \<lparr>test_name = ''dtn_basic'', test_fn = heisenbug\<rparr>]"

text \<open>
  A table in which the second test fails in the sweep and passes when it is retried, and
  the state of \<open>main\<close> after the sweep when the options were \<open>-n -r\<close>.
\<close>

definition heisen_table :: "nat picoquic_test_def_t list" where
  "heisen_table = test_table passing heisenbug passing passing"

definition swept_n_r :: "nat picoquic_test_def_t list \<Rightarrow> nat main_state" where
  "swept_n_r tt =
     sweep tt ((initial_state tt 0)\<lparr>disable_debug := 1, retry_failed_test := 1\<rparr>)"

text \<open>
  The table of the source with four tests that pass, and the state of \<open>main\<close> after
  the options \<open>-o a b\<close>.
\<close>

definition passing_table :: "nat picoquic_test_def_t list" where
  "passing_table = test_table passing passing passing passing"

definition ranged :: "nat picoquic_test_def_t list \<Rightarrow> nat \<Rightarrow> nat \<Rightarrow> nat main_state" where
  "ranged tt a b = (initial_state tt 0)\<lparr>first_test := a, last_test := b\<rparr>"

section \<open>Properties\<close>

subsection \<open>Logs and \<open>do_one_test\<close>\<close>

lemma runs_append: "runs (xs @ ys) = runs xs @ runs ys"
  by (induction xs rule: runs.induct) simp_all

lemma calls_append: "calls i (xs @ ys) = calls i xs + calls i ys"
  by (simp add: calls_def runs_append)


lemma do_one_test_runs:
  "runs (log (snd (do_one_test tt i Stdout s))) =
     runs (log s) @ (if i < nb_tests tt then [(i, fst (do_one_test tt i Stdout s))] else [])"
  by (simp add: do_one_test_def emit_def Let_def runs_append split: prod.splits)

lemma do_one_test_prefix: "prefix (log s) (log (snd (do_one_test tt i F s)))"
  by (simp add: do_one_test_def emit_def Let_def split: prod.splits)

subsection \<open>The sweep\<close>

lemma sweep_body_fields:
  "first_test (sweep_body tt i s) = first_test s"
  "last_test (sweep_body tt i s) = last_test s"
  "auto_bypass (sweep_body tt i s) = auto_bypass s"
  "disable_debug (sweep_body tt i s) = disable_debug s"
  "retry_failed_test (sweep_body tt i s) = retry_failed_test s"
  "length (test_status (sweep_body tt i s)) = length (test_status s)"
  by (simp_all add: sweep_body_def emit_def Let_def do_one_test_def split: prod.splits)

lemma sweep_body_other:
  "j \<noteq> i \<Longrightarrow> test_status (sweep_body tt i s) ! j = test_status s ! j"
  by (simp add: sweep_body_def emit_def Let_def do_one_test_def split: prod.splits)


lemma sweep_body_skipped:
  assumes "test_status s ! i = test_not_run" "\<not> (first_test s \<le> i \<and> i \<le> last_test s)"
  shows "sweep_body tt i s =
           s\<lparr>nb_test_tried := nb_test_tried s + 1,
              test_status := (test_status s)[i := test_success]\<rparr>"
  using assms by (auto simp add: sweep_body_def Let_def)

lemma sweep_body_runs:
  "runs (log (sweep_body tt i s)) =
     runs (log s) @
     (if test_status s ! i = test_not_run \<and> first_test s \<le> i \<and> i \<le> last_test s \<and>
         i < nb_tests tt
      then [(i, fst (do_one_test tt i Stdout (s\<lparr>nb_test_tried := nb_test_tried s + 1\<rparr>)))]
      else [])"
  by (simp add: sweep_body_def emit_def Let_def runs_append do_one_test_runs case_prod_beta)

lemma sweep_body_calls_out:
  "\<not> (first_test s \<le> j \<and> j \<le> last_test s) \<Longrightarrow>
     calls j (log (sweep_body tt i s)) = calls j (log s)"
  by (auto simp add: calls_def sweep_body_runs)


lemma sweep_body_tried:
  "nb_test_tried (sweep_body tt i s) =
     nb_test_tried s + (if test_status s ! i = test_not_run then 1 else 0)"
  by (simp add: sweep_body_def emit_def Let_def do_one_test_def split: prod.splits)

lemma sweep_loop_fields:
  "first_test (sweep_loop tt i s) = first_test s \<and>
   last_test (sweep_loop tt i s) = last_test s \<and>
   auto_bypass (sweep_loop tt i s) = auto_bypass s \<and>
   disable_debug (sweep_loop tt i s) = disable_debug s \<and>
   retry_failed_test (sweep_loop tt i s) = retry_failed_test s \<and>
   length (test_status (sweep_loop tt i s)) = length (test_status s)"
proof (induction tt i s rule: sweep_loop.induct)
  case (1 tt i s)
  then show ?case
    by (simp add: sweep_loop.simps [of tt i s] sweep_body_fields)
qed

lemma sweep_loop_below:
  "j < i \<Longrightarrow> test_status (sweep_loop tt i s) ! j = test_status s ! j"
proof (induction tt i s rule: sweep_loop.induct)
  case (1 tt i s)
  then show ?case
    by (simp add: sweep_loop.simps [of tt i s] sweep_body_other)
qed

lemma sweep_loop_calls_out:
  "\<not> (first_test s \<le> j \<and> j \<le> last_test s) \<Longrightarrow>
     calls j (log (sweep_loop tt i s)) = calls j (log s)"
proof (induction tt i s rule: sweep_loop.induct)
  case (1 tt i s)
  then show ?case
    by (simp add: sweep_loop.simps [of tt i s] sweep_body_fields sweep_body_calls_out)
qed

lemma sweep_loop_skipped:
  "i \<le> j \<Longrightarrow> j < nb_tests tt \<Longrightarrow> length (test_status s) = nb_tests tt \<Longrightarrow>
   test_status s ! j = test_not_run \<Longrightarrow> \<not> (first_test s \<le> j \<and> j \<le> last_test s) \<Longrightarrow>
     test_status (sweep_loop tt i s) ! j = test_success"
proof (induction tt i s rule: sweep_loop.induct)
  case (1 tt i s)
  show ?case
  proof (cases "i = j")
    case True
    with 1 have "test_status (sweep_body tt i s) ! j = test_success"
      by (simp add: sweep_body_skipped)
    with True show ?thesis
      using "1.prems" by (simp add: sweep_loop.simps [of tt j s] sweep_loop_below)
  next
    case False
    with 1 show ?thesis
      by (simp add: sweep_loop.simps [of tt i s] sweep_body_fields sweep_body_other)
  qed
qed

lemma sweep_loop_tried:
  "length (test_status s) = nb_tests tt \<Longrightarrow>
     nb_test_tried (sweep_loop tt i s) =
       nb_test_tried s + int (length (filter (\<lambda>st. st = test_not_run) (drop i (test_status s))))"
proof (induction tt i s rule: sweep_loop.induct)
  case (1 tt i s)
  show ?case
  proof (cases "i < nb_tests tt")
    case True
    have d: "drop (Suc i) (test_status (sweep_body tt i s)) = drop (Suc i) (test_status s)"
      by (rule nth_equalityI) (simp_all add: sweep_body_fields sweep_body_other)
    have c: "drop i (test_status s) = test_status s ! i # drop (Suc i) (test_status s)"
      using True "1.prems" by (simp add: Cons_nth_drop_Suc)
    from 1 True show ?thesis
      by (simp add: sweep_loop.simps [of tt i s] sweep_body_fields sweep_body_tried d c)
  next
    case False
    with 1 show ?thesis
      by (simp add: sweep_loop.simps [of tt i s])
  qed
qed


subsection \<open>The report and the retry pass\<close>

lemma failed_names_loop_shape:
  "\<exists>es. failed_names_loop tt i s = s\<lparr>log := log s @ es\<rparr> \<and> runs es = []"
proof (induction tt i s rule: failed_names_loop.induct)
  case (1 tt i s)
  show ?case
  proof (cases "i < nb_tests tt")
    case True
    let ?s1 = "if test_status s ! i = test_failed
               then emit (Stdout (test_name (tt ! i) @ '' '')) s else s"
    from 1 True obtain es where
      es: "failed_names_loop tt (i + 1) ?s1 = ?s1\<lparr>log := log ?s1 @ es\<rparr>" "runs es = []"
      by blast
    show ?thesis
    proof (cases "test_status s ! i = test_failed")
      case f: True
      with True es have
        "failed_names_loop tt i s = s\<lparr>log := log s @ (Stdout (test_name (tt ! i) @ '' '') # es)\<rparr>"
        by (simp add: failed_names_loop.simps [of tt i s] emit_def)
      with es(2) show ?thesis
        by (intro exI [of _ "Stdout (test_name (tt ! i) @ '' '') # es"]) simp
    next
      case f: False
      with True es have "failed_names_loop tt i s = s\<lparr>log := log s @ es\<rparr>"
        by (simp add: failed_names_loop.simps [of tt i s])
      with es(2) show ?thesis
        by blast
    qed
  next
    case False
    then have "failed_names_loop tt i s = s\<lparr>log := log s @ []\<rparr>"
      by (simp add: failed_names_loop.simps [of tt i s])
    then show ?thesis
      by (intro exI [of _ "[]"]) simp
  qed
qed

lemma do_one_test_fields:
  "test_status (snd (do_one_test tt i F s)) = test_status s"
  "ret (snd (do_one_test tt i F s)) = ret s"
  "nb_test_tried (snd (do_one_test tt i F s)) = nb_test_tried s"
  "nb_test_failed (snd (do_one_test tt i F s)) = nb_test_failed s"
  by (simp_all add: do_one_test_def emit_def Let_def split: prod.splits)

lemma retry_body_fields:
  "nb_test_tried (retry_body tt i s) = nb_test_tried s"
  "nb_test_failed (retry_body tt i s) = nb_test_failed s"
  "length (test_status (retry_body tt i s)) = length (test_status s)"
  by (simp_all add: retry_body_def emit_def Let_def do_one_test_def split: prod.splits)

lemma retry_body_other:
  "j \<noteq> i \<Longrightarrow> test_status (retry_body tt i s) ! j = test_status s ! j"
  by (simp add: retry_body_def emit_def Let_def do_one_test_def split: prod.splits)

lemma retry_body_prefix: "prefix (log s) (log (retry_body tt i s))"
  by (simp add: retry_body_def emit_def Let_def do_one_test_def split: prod.splits)

lemma retry_body_not_failed:
  "test_status s ! i \<noteq> test_failed \<Longrightarrow> retry_body tt i s = s"
  by (simp add: retry_body_def)

lemma retry_body_cannot:
  "test_status s ! i = test_failed \<Longrightarrow> cannot_retry (test_name (tt ! i)) \<Longrightarrow>
     retry_body tt i s =
       s\<lparr>log := log s @ [Stdout (''Cannot retry '' @ test_name (tt ! i) @ '':'' @ [CHR 0x0A])],
         ret := - 1\<rparr>"
  by (simp add: retry_body_def emit_def)

lemma retry_body_runs:
  "runs (log (retry_body tt i s)) =
     runs (log s) @
     (if test_status s ! i = test_failed \<and> \<not> cannot_retry (test_name (tt ! i)) \<and> i < nb_tests tt
      then [(i, fst (do_one_test tt i Stdout
                       (emit (Stdout (''Retrying '' @ test_name (tt ! i) @ '':'' @ [CHR 0x0A])) s)))]
      else [])"
  by (simp add: retry_body_def emit_def Let_def runs_append do_one_test_runs case_prod_beta)


lemma retry_body_ret:
  "ret (retry_body tt i s) = ret s \<or> ret (retry_body tt i s) = - 1"
  by (simp add: retry_body_def emit_def Let_def do_one_test_def split: prod.splits)


lemma retry_loop_fields:
  "nb_test_tried (retry_loop tt i s) = nb_test_tried s \<and>
   nb_test_failed (retry_loop tt i s) = nb_test_failed s \<and>
   length (test_status (retry_loop tt i s)) = length (test_status s)"
proof (induction tt i s rule: retry_loop.induct)
  case (1 tt i s)
  then show ?case
    by (simp add: retry_loop.simps [of tt i s] retry_body_fields)
qed


lemma retry_loop_prefix: "prefix (log s) (log (retry_loop tt i s))"
proof (induction tt i s rule: retry_loop.induct)
  case (1 tt i s)
  show ?case
  proof (cases "i < nb_tests tt")
    case True
    with 1 have "prefix (log (retry_body tt i s)) (log (retry_loop tt i s))"
      by (simp add: retry_loop.simps [of tt i s])
    with retry_body_prefix [of s tt i] show ?thesis
      by (rule prefix_order.trans)
  next
    case False
    then show ?thesis
      by (simp add: retry_loop.simps [of tt i s])
  qed
qed

lemma retry_body_keeps_not_failed:
  "test_status s ! j \<noteq> test_failed \<Longrightarrow> test_status (retry_body tt i s) ! j = test_status s ! j"
  by (cases "j = i") (simp_all add: retry_body_not_failed retry_body_other)

lemma retry_loop_not_failed:
  "test_status s ! j \<noteq> test_failed \<Longrightarrow> test_status (retry_loop tt i s) ! j = test_status s ! j"
proof (induction tt i s rule: retry_loop.induct)
  case (1 tt i s)
  then show ?case
    by (simp add: retry_loop.simps [of tt i s] retry_body_keeps_not_failed)
qed

lemma retry_body_keeps_cannot:
  "test_status s ! j = test_failed \<Longrightarrow> cannot_retry (test_name (tt ! j)) \<Longrightarrow>
     test_status (retry_body tt i s) ! j = test_failed"
  by (cases "j = i") (simp_all add: retry_body_cannot retry_body_other)

lemma retry_loop_cannot:
  "test_status s ! j = test_failed \<Longrightarrow> cannot_retry (test_name (tt ! j)) \<Longrightarrow>
     test_status (retry_loop tt i s) ! j = test_failed"
proof (induction tt i s rule: retry_loop.induct)
  case (1 tt i s)
  then show ?case
    by (simp add: retry_loop.simps [of tt i s] retry_body_keeps_cannot)
qed

lemma retry_body_calls_same:
  "test_status s ! j \<noteq> test_failed \<or> cannot_retry (test_name (tt ! j)) \<Longrightarrow>
     calls j (log (retry_body tt i s)) = calls j (log s)"
  by (auto simp add: calls_def retry_body_runs)

lemma retry_loop_calls_same:
  "test_status s ! j \<noteq> test_failed \<or> cannot_retry (test_name (tt ! j)) \<Longrightarrow>
     calls j (log (retry_loop tt i s)) = calls j (log s)"
proof (induction tt i s rule: retry_loop.induct)
  case (1 tt i s)
  show ?case
  proof (cases "i < nb_tests tt")
    case True
    have "test_status (retry_body tt i s) ! j \<noteq> test_failed \<or> cannot_retry (test_name (tt ! j))"
      using "1.prems" by (auto simp add: retry_body_keeps_not_failed)
    with 1 True show ?thesis
      by (simp add: retry_loop.simps [of tt i s] retry_body_calls_same)
  next
    case False
    then show ?thesis
      by (simp add: retry_loop.simps [of tt i s])
  qed
qed

lemma retry_loop_ret_sticky: "ret s \<noteq> 0 \<Longrightarrow> ret (retry_loop tt i s) \<noteq> 0"
proof (induction tt i s rule: retry_loop.induct)
  case (1 tt i s)
  show ?case
  proof (cases "i < nb_tests tt")
    case True
    from "1.prems" retry_body_ret [of tt i s] have "ret (retry_body tt i s) \<noteq> 0"
      by auto
    with 1 True show ?thesis
      by (simp add: retry_loop.simps [of tt i s])
  next
    case False
    with 1 show ?thesis
      by (simp add: retry_loop.simps [of tt i s])
  qed
qed

lemma retry_loop_cannot_ret:
  "i \<le> j \<Longrightarrow> j < nb_tests tt \<Longrightarrow> test_status s ! j = test_failed \<Longrightarrow>
   cannot_retry (test_name (tt ! j)) \<Longrightarrow> ret (retry_loop tt i s) \<noteq> 0"
proof (induction tt i s rule: retry_loop.induct)
  case (1 tt i s)
  show ?case
  proof (cases "i = j")
    case True
    with "1.prems" have "ret (retry_body tt i s) \<noteq> 0"
      by (simp add: retry_body_cannot)
    then have "ret (retry_loop tt (i + 1) (retry_body tt i s)) \<noteq> 0"
      by (rule retry_loop_ret_sticky)
    with True "1.prems" show ?thesis
      by (simp add: retry_loop.simps [of tt j s])
  next
    case False
    with 1 show ?thesis
      by (simp add: retry_loop.simps [of tt i s] retry_body_other)
  qed
qed




lemma retry_body_same_or_success:
  "test_status (retry_body tt i s) ! j = test_status s ! j \<or>
   test_status (retry_body tt i s) ! j = test_success"
proof (cases "j = i")
  case False
  then show ?thesis
    by (simp add: retry_body_other)
next
  case True
  show ?thesis
  proof (cases "i < length (test_status s)")
    case l: True
    with True show ?thesis
      by (simp add: retry_body_def emit_def case_prod_beta do_one_test_fields)
  next
    case l: False
    with True show ?thesis
      by (simp add: retry_body_def emit_def case_prod_beta do_one_test_fields list_update_beyond)
  qed
qed

lemma retry_loop_same_or_success:
  "test_status (retry_loop tt i s) ! j = test_status s ! j \<or>
   test_status (retry_loop tt i s) ! j = test_success"
proof (induction tt i s rule: retry_loop.induct)
  case (1 tt i s)
  show ?case
  proof (cases "i < nb_tests tt")
    case True
    then have c: "retry_loop tt i s = retry_loop tt (i + 1) (retry_body tt i s)"
      by (simp add: retry_loop.simps [of tt i s])
    from retry_body_same_or_success [of tt i s j] show ?thesis
    proof
      assume "test_status (retry_body tt i s) ! j = test_status s ! j"
      with "1.IH" [OF True] show ?thesis
        by (simp add: c)
    next
      assume "test_status (retry_body tt i s) ! j = test_success"
      then show ?thesis
        by (simp add: c retry_loop_not_failed)
    qed
  next
    case False
    then show ?thesis
      by (simp add: retry_loop.simps [of tt i s])
  qed
qed

lemma retry_pass_shape:
  "\<exists>es. runs es = [] \<and>
        retry_pass tt s =
          (retry_loop tt 0 (retry_start s))\<lparr>log := log (retry_loop tt 0 (retry_start s)) @ es\<rparr> \<and>
        (ret (retry_loop tt 0 (retry_start s)) = 0 \<longrightarrow>
           es = [Stdout (''All tests pass after second try.'' @ [CHR 0x0A])])"
proof (cases "ret (retry_loop tt 0 (retry_start s)) = 0")
  case True
  then show ?thesis
    by (simp add: retry_pass_def retry_start_def emit_def Let_def)
next
  case False
  let ?s1 = "retry_loop tt 0 (retry_start s)"
  obtain es where es:
    "failed_names_loop tt 0 (emit (Stdout ''Still failing: '') ?s1) =
       (emit (Stdout ''Still failing: '') ?s1)
         \<lparr>log := log (emit (Stdout ''Still failing: '') ?s1) @ es\<rparr>" "runs es = []"
    using failed_names_loop_shape by blast
  have "retry_pass tt s = ?s1\<lparr>log := log ?s1 @ (Stdout ''Still failing: '' # es @ [Stdout [CHR 0x0A]])\<rparr>"
    using False es(1) by (simp add: retry_pass_def retry_start_def emit_def Let_def)
  moreover have "runs (Stdout ''Still failing: '' # es @ [Stdout [CHR 0x0A]]) = []"
    using es(2) by (simp add: runs_append)
  ultimately show ?thesis
    using False by blast
qed

lemma report_shape:
  "\<exists>es. runs es = [] \<and>
        prefix (if nb_test_tried s > 1
                then [Stdout (summary_line (nb_test_tried s) (nb_test_failed s))] else []) es \<and>
        report tt s =
          (if retry_requested s then retry_pass tt (s\<lparr>log := log s @ es\<rparr>)
           else s\<lparr>log := log s @ es\<rparr>)"
proof -
  let ?pre = "if nb_test_tried s > 1
              then [Stdout (summary_line (nb_test_tried s) (nb_test_failed s))] else []"
  let ?s1 = "s\<lparr>log := log s @ ?pre\<rparr>"
  have s1: "(if nb_test_tried s > 1
             then emit (Stdout (summary_line (nb_test_tried s) (nb_test_failed s))) s else s) = ?s1"
    by (simp add: emit_def)
  show ?thesis
  proof (cases "nb_test_failed s > 0")
    case True
    obtain es where es:
      "failed_names_loop tt 0 (emit (Stdout ''Failed test(s): '') ?s1) =
         (emit (Stdout ''Failed test(s): '') ?s1)
           \<lparr>log := log (emit (Stdout ''Failed test(s): '') ?s1) @ es\<rparr>" "runs es = []"
      using failed_names_loop_shape by blast
    let ?all = "?pre @ Stdout ''Failed test(s): '' # es @ [Stdout [CHR 0x0A]]"
    have "emit (Stdout [CHR 0x0A])
            (failed_names_loop tt 0 (emit (Stdout ''Failed test(s): '') ?s1)) =
          s\<lparr>log := log s @ ?all\<rparr>"
      by (simp add: es(1)) (simp add: emit_def)
    then have "report tt s =
          (if retry_requested s then retry_pass tt (s\<lparr>log := log s @ ?all\<rparr>)
           else s\<lparr>log := log s @ ?all\<rparr>)"
      using True unfolding report_def s1 Let_def retry_requested_def by simp
    moreover have "runs ?all = []"
      using es(2) by (simp add: runs_append)
    moreover have "prefix ?pre ?all"
      by simp
    ultimately show ?thesis
      by blast
  next
    case False
    then have "report tt s = s\<lparr>log := log s @ ?pre\<rparr>"
      unfolding report_def s1 Let_def by simp
    moreover have "\<not> retry_requested s"
      using False by (simp add: retry_requested_def)
    moreover have "runs ?pre = []"
      by simp
    ultimately show ?thesis
      by (intro exI [of _ ?pre]) simp
  qed
qed

lemma retry_start_simps:
  "test_status (retry_start s) = test_status s"
  "nb_test_tried (retry_start s) = nb_test_tried s"
  "nb_test_failed (retry_start s) = nb_test_failed s"
  "ret (retry_start s) = 0"
  "log (retry_start s) = log s @ [Debug_printf_resume]"
  by (simp_all add: retry_start_def emit_def)


lemma retry_pass_prefix: "prefix (log s) (log (retry_pass tt s))"
proof -
  obtain es where
    "retry_pass tt s =
       (retry_loop tt 0 (retry_start s))\<lparr>log := log (retry_loop tt 0 (retry_start s)) @ es\<rparr>"
    using retry_pass_shape by blast
  then have "prefix (log (retry_loop tt 0 (retry_start s))) (log (retry_pass tt s))"
    by simp
  moreover have "prefix (log (retry_start s)) (log (retry_loop tt 0 (retry_start s)))"
    by (rule retry_loop_prefix)
  moreover have "prefix (log s) (log (retry_start s))"
    by (simp add: retry_start_simps)
  ultimately show ?thesis
    by (meson prefix_order.trans)
qed

lemma report_prefix:
  "prefix (log s @ (if nb_test_tried s > 1
                    then [Stdout (summary_line (nb_test_tried s) (nb_test_failed s))] else []))
          (log (report tt s))"
proof -
  let ?pre = "if nb_test_tried s > 1
              then [Stdout (summary_line (nb_test_tried s) (nb_test_failed s))] else []"
  obtain es where es: "prefix ?pre es"
    "report tt s = (if retry_requested s then retry_pass tt (s\<lparr>log := log s @ es\<rparr>)
                    else s\<lparr>log := log s @ es\<rparr>)"
    using report_shape by blast
  have a: "prefix (log s @ ?pre) (log s @ es)"
    using es(1) by simp
  show ?thesis
  proof (cases "retry_requested s")
    case True
    have "prefix (log (s\<lparr>log := log s @ es\<rparr>)) (log (retry_pass tt (s\<lparr>log := log s @ es\<rparr>)))"
      by (rule retry_pass_prefix)
    then have "prefix (log s @ es) (log (report tt s))"
      using True es(2) by simp
    with a show ?thesis
      by (rule prefix_order.trans)
  next
    case False
    with es(2) a show ?thesis
      by simp
  qed
qed

text \<open>The report when the retry pass runs: everything is decided by the retry loop.\<close>

lemma report_retry:
  assumes "retry_requested s"
  shows "\<exists>s0 es. test_status s0 = test_status s \<and> runs (log s0) = runs (log s) \<and>
           prefix (log s) (log s0) \<and> ret s0 = 0 \<and>
           nb_test_tried s0 = nb_test_tried s \<and> nb_test_failed s0 = nb_test_failed s \<and>
           runs es = [] \<and>
           report tt s = (retry_loop tt 0 s0)\<lparr>log := log (retry_loop tt 0 s0) @ es\<rparr> \<and>
           (ret (retry_loop tt 0 s0) = 0 \<longrightarrow>
              es = [Stdout (''All tests pass after second try.'' @ [CHR 0x0A])])"
proof -
  obtain es where es: "runs es = []"
    "report tt s = retry_pass tt (s\<lparr>log := log s @ es\<rparr>)"
    using report_shape [of s tt] assms by auto
  let ?s0 = "retry_start (s\<lparr>log := log s @ es\<rparr>)"
  obtain es' where es': "runs es' = []"
    "retry_pass tt (s\<lparr>log := log s @ es\<rparr>) =
       (retry_loop tt 0 ?s0)\<lparr>log := log (retry_loop tt 0 ?s0) @ es'\<rparr>"
    "ret (retry_loop tt 0 ?s0) = 0 \<longrightarrow>
       es' = [Stdout (''All tests pass after second try.'' @ [CHR 0x0A])]"
    using retry_pass_shape by blast
  have "test_status ?s0 = test_status s" "runs (log ?s0) = runs (log s)"
    "prefix (log s) (log ?s0)" "ret ?s0 = 0"
    "nb_test_tried ?s0 = nb_test_tried s" "nb_test_failed ?s0 = nb_test_failed s"
    using es(1) by (simp_all add: retry_start_simps runs_append)
  with es es' show ?thesis
    by (intro exI [of _ ?s0] exI [of _ es']) simp
qed

lemma report_no_retry:
  assumes "\<not> retry_requested s"
  shows "\<exists>es. runs es = [] \<and> report tt s = s\<lparr>log := log s @ es\<rparr>"
  using report_shape [of s tt] assms by auto









subsection \<open>Test selection\<close>




































subsection \<open>The option loop\<close>

















text \<open>
  The loop that does not end: after \<open>-xdtn_data\<close> in one word, each iteration comes back
  to the same word, whatever the fuel.
\<close>

lemma attached_x_never_ends:
  "ret s = 0 \<Longrightarrow> optind s = 1 \<Longrightarrow> sp s = 1 \<Longrightarrow>
     parse_loop n tt [''picoquic_sp'', ''-xdtn_data''] s = None"
proof (induction n arbitrary: s)
  case 0
  show ?case
    by simp
next
  case (Suc n)
  let ?argv = "[''picoquic_sp'', ''-xdtn_data'']"
  let ?s1 = "s\<lparr>optarg := Some ''dtn_data'', optind := 2, sp := 1\<rparr>"
  let ?s2 = "?s1\<lparr>optind := 1\<rparr>"
  have g: "getopt ?argv s = (Some (CHR ''x''), ?s1)"
    using Suc.prems by (simp add: getopt_def optstring_def Let_def)
  have x: "x_loop tt ?argv ?s2 = ?s2"
    by (subst x_loop.simps) simp
  have h: "handle_opt tt ?argv (CHR ''x'') ?s1 = Normal ?s2"
    using x by (simp add: handle_opt_def opt_x_def)
  have "parse_loop n tt ?argv ?s2 = None"
    using Suc.prems by (intro Suc.IH) simp_all
  with g h Suc.prems(1) show ?case
    by simp
qed

subsection \<open>Running the model on concrete inputs\<close>

lemma parse_loop_numeral:
  "parse_loop (numeral k) tt argv s =
     (if ret s \<noteq> 0 then Some (Normal s)
      else
        (case getopt argv s of
           (None, s1) \<Rightarrow> Some (Normal s1)
         | (Some opt, s1) \<Rightarrow>
             (case handle_opt tt argv opt s1 of
                Normal s2 \<Rightarrow> parse_loop (pred_numeral k) tt argv s2
              | Exit_0 s2 \<Rightarrow> Some (Exit_0 s2)
              | Undefined_behaviour \<Rightarrow> Some Undefined_behaviour)))"
  by (simp only: numeral_eq_Suc parse_loop.simps)

lemmas run_simps =
  main_def run_tests_def parse_loop_numeral getopt_def handle_opt_def optstring_def
  opt_x_def opt_o_def opt_f_def opt_F_def opt_s_def opt_c_def opt_d_def x_loop.simps
  fail_usage_def usage_def argv0_def argv_at_def str_or_null_def atoi_def isspace_def digit_val_def
  select_tests_def select_listed_def bypass_for_stressers_def exclude_loop.simps select_loop.simps
  set_debug_def sweep_def sweep_loop.simps sweep_body_def do_one_test_def emit_def
  report_def retry_pass_def retry_loop.simps retry_body_def failed_names_loop.simps
  cannot_retry_def summary_line_def show_int_def show_nat.simps
  get_test_number_def get_test_number_loop.simps nb_tests_def test_table_def initial_state_def
  exit_status_def final_def calls_def retry_requested_def
  passing_def failing_def heisenbug_def stress_table_def heisen_table_def swept_n_r_def passing_table_def ranged_def bypass_notice_def listed_def stresser_requested_def x_group_def unknown_name_def loop_exit_def Let_def

section \<open>The claims\<close>

text \<open>
  C1 as stated fails. With \<open>-o 1 2\<close> and four tests that pass, entries 0 and 3 start
  as \<open>test_not_run\<close> and are outside the range; after the sweep they are
  \<open>test_success\<close>, and \<open>nb_test_tried\<close> is 4 though two test functions were called.
\<close>

theorem out_of_range_not_run_counterexample:
  "test_status (ranged passing_table 1 2) ! 0 = test_not_run \<and>
   \<not> (first_test (ranged passing_table 1 2) \<le> 0 \<and> 0 \<le> last_test (ranged passing_table 1 2)) \<and>
   test_status (sweep passing_table (ranged passing_table 1 2)) ! 0 \<noteq> test_not_run \<and>
   nb_test_tried (sweep passing_table (ranged passing_table 1 2)) = 4 \<and>
   runs (log (sweep passing_table (ranged passing_table 1 2))) = [(1, 0), (2, 0)] \<and>
   map_option test_status
     (final (main passing_table True 10 [''picoquic_sp'', ''-o'', ''1'', ''2''] 0)) =
     Some [test_success, test_success, test_success, test_success] \<and>
   map_option nb_test_tried
     (final (main passing_table True 10 [''picoquic_sp'', ''-o'', ''1'', ''2''] 0)) = Some 4"
  by (simp add: run_simps)

text \<open>
  C1, as the code has it. When the sweep runs (\<open>ret\<close> is 0 after the options), an entry
  that is \<open>test_not_run\<close> and lies outside \<open>[first_test, last_test]\<close> is not called, but
  it ends as \<open>test_success\<close>, and \<open>nb_test_tried\<close> grows by the number of all entries
  that were \<open>test_not_run\<close>, in the range or not.
\<close>

theorem out_of_range_not_run_becomes_success:
  assumes "ret s = 0" and "length (test_status s) = nb_tests tt" and "j < nb_tests tt"
    and "test_status s ! j = test_not_run" and "\<not> (first_test s \<le> j \<and> j \<le> last_test s)"
  shows "calls j (log (sweep tt s)) = calls j (log s) \<and>
         test_status (sweep tt s) ! j = test_success \<and>
         nb_test_tried (sweep tt s) =
           nb_test_tried s + int (length (filter (\<lambda>st. st = test_not_run) (test_status s)))"
proof -
  have "calls j (log (sweep_loop tt 0 s)) = calls j (log s)"
    using assms(5) by (rule sweep_loop_calls_out)
  moreover have "test_status (sweep_loop tt 0 s) ! j = test_success"
    using assms by (intro sweep_loop_skipped) simp_all
  moreover have "nb_test_tried (sweep_loop tt 0 s) =
      nb_test_tried s + int (length (filter (\<lambda>st. st = test_not_run) (drop 0 (test_status s))))"
    using assms(2) by (rule sweep_loop_tried)
  ultimately show ?thesis
    using assms(1) by (simp add: sweep_def)
qed

theorem out_of_range_not_run_becomes_success_witness:
  "ret (ranged passing_table 1 2) = 0 \<and>
   length (test_status (ranged passing_table 1 2)) = nb_tests passing_table \<and>
   0 < nb_tests passing_table \<and>
   test_status (ranged passing_table 1 2) ! 0 = test_not_run \<and>
   \<not> (first_test (ranged passing_table 1 2) \<le> 0 \<and> 0 \<le> last_test (ranged passing_table 1 2)) \<and>
   calls 0 (log (sweep passing_table (ranged passing_table 1 2))) =
     calls 0 (log (ranged passing_table 1 2)) \<and>
   test_status (sweep passing_table (ranged passing_table 1 2)) ! 0 = test_success \<and>
   nb_test_tried (sweep passing_table (ranged passing_table 1 2)) = 4"
proof -
  have h1: "ret (ranged passing_table 1 2) = 0"
    by (simp add: run_simps)
  have h2: "length (test_status (ranged passing_table 1 2)) = nb_tests passing_table"
    by (simp add: run_simps)
  have h3: "0 < nb_tests passing_table"
    by (simp add: run_simps)
  have h4: "test_status (ranged passing_table 1 2) ! 0 = test_not_run"
    by (simp add: run_simps)
  have h5: "\<not> (first_test (ranged passing_table 1 2) \<le> 0 \<and>
                0 \<le> last_test (ranged passing_table 1 2))"
    by (simp add: run_simps)
  have n: "nb_test_tried (ranged passing_table 1 2) +
             int (length (filter (\<lambda>st. st = test_not_run) (test_status (ranged passing_table 1 2))))
           = 4"
    by (simp add: run_simps)
  from out_of_range_not_run_becomes_success [OF h1 h2 h3 h4 h5] h1 h2 h3 h4 h5 n show ?thesis
    by simp
qed




text \<open>
  C3. A failed test whose name is in the list tested by the retry loop (\<open>cannot_retry\<close>)
  is not called again by the retry pass, keeps the status \<open>test_failed\<close>, and the value
  that \<open>main\<close> returns is not 0.
\<close>

theorem non_retryable_failure_stays:
  assumes "retry_requested s" and "j < nb_tests tt" and "test_status s ! j = test_failed"
    and "cannot_retry (test_name (tt ! j))"
  shows "calls j (log (report tt s)) = calls j (log s) \<and>
         test_status (report tt s) ! j = test_failed \<and>
         ret (report tt s) \<noteq> 0"
proof -
  obtain s0 es where s0: "test_status s0 = test_status s" "runs (log s0) = runs (log s)"
    "runs es = []"
    "report tt s = (retry_loop tt 0 s0)\<lparr>log := log (retry_loop tt 0 s0) @ es\<rparr>"
    using report_retry [OF assms(1)] by blast
  have f: "test_status s0 ! j = test_failed"
    using assms(3) s0(1) by simp
  have "calls j (log (retry_loop tt 0 s0)) = calls j (log s0)"
    using f assms(4) by (intro retry_loop_calls_same) simp
  then have "calls j (log (report tt s)) = calls j (log s)"
    using s0 by (simp add: calls_def runs_append)
  moreover have "test_status (report tt s) ! j = test_failed"
    using s0(4) f assms(4) by (simp add: retry_loop_cannot)
  moreover have "ret (retry_loop tt 0 s0) \<noteq> 0"
    using f assms(2,4) by (intro retry_loop_cannot_ret [of 0 j]) simp_all
  then have "ret (report tt s) \<noteq> 0"
    using s0(4) by simp
  ultimately show ?thesis
    by simp
qed

theorem non_retryable_failure_stays_witness:
  "retry_requested (swept_n_r stress_table) \<and>
   0 < nb_tests stress_table \<and>
   test_status (swept_n_r stress_table) ! 0 = test_failed \<and>
   cannot_retry (test_name (stress_table ! 0)) \<and>
   calls 0 (log (report stress_table (swept_n_r stress_table))) =
     calls 0 (log (swept_n_r stress_table)) \<and>
   test_status (report stress_table (swept_n_r stress_table)) ! 0 = test_failed \<and>
   ret (report stress_table (swept_n_r stress_table)) \<noteq> 0"
proof -
  have h1: "retry_requested (swept_n_r stress_table)"
    by (simp add: run_simps)
  have h2: "0 < nb_tests stress_table"
    by (simp add: run_simps)
  have h3: "test_status (swept_n_r stress_table) ! 0 = test_failed"
    by (simp add: run_simps)
  have h4: "cannot_retry (test_name (stress_table ! 0))"
    by (simp add: run_simps)
  from non_retryable_failure_stays [OF h1 h2 h3 h4] h1 h2 h3 h4 show ?thesis
    by simp
qed



text \<open>
  C5 as stated fails for no failure at all. Four tests pass: the summary line reads
  \<open>0 fails\<close>, the form used for one failure, not the form used for two.
\<close>

theorem summary_line_zero_counterexample:
  "map_option (last \<circ> log) (final (main passing_table True 10 [''picoquic_sp''] 0)) =
     Some (Stdout (''Tried 4 tests, 0 fails.'' @ [CHR 0x0A])) \<and>
   summary_line 4 1 = ''Tried 4 tests, 1 fails.'' @ [CHR 0x0A] \<and>
   summary_line 4 2 = ''Tried 4 tests, 2 fail.'' @ [CHR 0x0A]"
  by (simp add: run_simps)

text \<open>
  C5, as the code has it. When more than one test was tried, the first line of the report
  is the summary line; it ends in \<open>fails.\<close> when at most one test failed (so also when
  none did) and in \<open>fail.\<close> when more than one did.
\<close>

theorem summary_line_phrasing:
  "nb_test_tried s > 1 \<Longrightarrow>
     prefix
       (log s @
        [Stdout (''Tried '' @ show_int (nb_test_tried s) @ '' tests, '' @
                 show_int (nb_test_failed s) @
                 (if nb_test_failed s \<le> 1 then '' fails.'' else '' fail.'') @ [CHR 0x0A])])
       (log (report tt s))"
  using report_prefix [of s tt] by (auto simp add: summary_line_def split: if_splits)

theorem summary_line_phrasing_witness:
  "nb_test_tried (sweep passing_table (initial_state passing_table 0)) > 1 \<and>
   nb_test_failed (sweep passing_table (initial_state passing_table 0)) \<le> 1 \<and>
   prefix
     (log (sweep passing_table (initial_state passing_table 0)) @
      [Stdout (''Tried 4 tests, 0 fails.'' @ [CHR 0x0A])])
     (log (report passing_table (sweep passing_table (initial_state passing_table 0))))"
proof -
  have h: "nb_test_tried (sweep passing_table (initial_state passing_table 0)) > 1"
    by (simp add: run_simps)
  have n: "nb_test_tried (sweep passing_table (initial_state passing_table 0)) = 4"
    "nb_test_failed (sweep passing_table (initial_state passing_table 0)) = 0"
    by (simp_all add: run_simps)
  have sh: "show_int 4 = ''4''" "show_int 0 = ''0''"
    by (simp_all add: run_simps)
  from summary_line_phrasing [OF h, of passing_table] h show ?thesis
    unfolding n sh by simp
qed

text \<open>
  C6. Whatever the status of an entry, if its position is outside
  \<open>[first_test, last_test]\<close> the sweep does not call its test function.
\<close>

theorem out_of_range_never_invoked:
  "\<not> (first_test s \<le> j \<and> j \<le> last_test s) \<Longrightarrow>
     calls j (log (sweep tt s)) = calls j (log s)"
  by (simp add: sweep_def sweep_loop_calls_out)

theorem out_of_range_never_invoked_witness:
  "\<not> (first_test (ranged passing_table 1 2) \<le> 0 \<and> 0 \<le> last_test (ranged passing_table 1 2)) \<and>
   calls 0 (log (sweep passing_table (ranged passing_table 1 2))) =
     calls 0 (log (ranged passing_table 1 2)) \<and>
   runs (log (sweep passing_table (ranged passing_table 1 2))) = [(1, 0), (2, 0)]"
proof -
  have h: "\<not> (first_test (ranged passing_table 1 2) \<le> 0 \<and>
               0 \<le> last_test (ranged passing_table 1 2))"
    by (simp add: run_simps)
  have r: "runs (log (sweep passing_table (ranged passing_table 1 2))) = [(1, 0), (2, 0)]"
    by (simp add: run_simps)
  from out_of_range_never_invoked [OF h] h r show ?thesis
    by simp
qed







text \<open>
  C9. The report with its retry pass leaves every entry that is not \<open>test_failed\<close> as it
  is, and a \<open>test_failed\<close> entry stays so or becomes \<open>test_success\<close>. It changes neither
  \<open>nb_test_tried\<close> nor \<open>nb_test_failed\<close>, and the summary line, printed before the retry
  pass from these two counters, stays in the log.
\<close>

theorem retry_pass_frame:
  "(test_status s ! j \<noteq> test_failed \<longrightarrow> test_status (report tt s) ! j = test_status s ! j) \<and>
   (test_status s ! j = test_failed \<longrightarrow>
      test_status (report tt s) ! j = test_failed \<or> test_status (report tt s) ! j = test_success) \<and>
   length (test_status (report tt s)) = length (test_status s) \<and>
   nb_test_tried (report tt s) = nb_test_tried s \<and>
   nb_test_failed (report tt s) = nb_test_failed s \<and>
   (nb_test_tried s > 1 \<longrightarrow>
      prefix (log s @ [Stdout (summary_line (nb_test_tried s) (nb_test_failed s))])
             (log (report tt s)))"
proof (cases "retry_requested s")
  case True
  obtain s0 es where s0: "test_status s0 = test_status s"
    "nb_test_tried s0 = nb_test_tried s" "nb_test_failed s0 = nb_test_failed s"
    "report tt s = (retry_loop tt 0 s0)\<lparr>log := log (retry_loop tt 0 s0) @ es\<rparr>"
    using report_retry [OF True] by blast
  have "test_status s ! j \<noteq> test_failed \<longrightarrow> test_status (report tt s) ! j = test_status s ! j"
    using s0(1,4) by (simp add: retry_loop_not_failed)
  moreover have "test_status s ! j = test_failed \<longrightarrow>
      test_status (report tt s) ! j = test_failed \<or> test_status (report tt s) ! j = test_success"
    using s0(1,4) retry_loop_same_or_success [of tt 0 s0 j] by auto
  moreover have "length (test_status (report tt s)) = length (test_status s)"
    "nb_test_tried (report tt s) = nb_test_tried s"
    "nb_test_failed (report tt s) = nb_test_failed s"
    using s0 by (simp_all add: retry_loop_fields)
  moreover have "nb_test_tried s > 1 \<longrightarrow>
      prefix (log s @ [Stdout (summary_line (nb_test_tried s) (nb_test_failed s))])
             (log (report tt s))"
    using report_prefix [of s tt] by (auto split: if_splits)
  ultimately show ?thesis
    by blast
next
  case False
  then obtain es where "report tt s = s\<lparr>log := log s @ es\<rparr>"
    using report_no_retry by blast
  then show ?thesis
    using report_prefix [of s tt] by (auto split: if_splits)
qed

theorem retry_pass_frame_witness:
  "test_status (swept_n_r heisen_table) ! 0 \<noteq> test_failed \<and>
   test_status (report heisen_table (swept_n_r heisen_table)) ! 0 =
     test_status (swept_n_r heisen_table) ! 0 \<and>
   test_status (swept_n_r heisen_table) ! 1 = test_failed \<and>
   (test_status (report heisen_table (swept_n_r heisen_table)) ! 1 = test_failed \<or>
    test_status (report heisen_table (swept_n_r heisen_table)) ! 1 = test_success) \<and>
   nb_test_tried (report heisen_table (swept_n_r heisen_table)) = 4 \<and>
   nb_test_failed (report heisen_table (swept_n_r heisen_table)) = 1 \<and>
   nb_test_tried (swept_n_r heisen_table) > 1 \<and>
   prefix (log (swept_n_r heisen_table) @ [Stdout (''Tried 4 tests, 1 fails.'' @ [CHR 0x0A])])
          (log (report heisen_table (swept_n_r heisen_table)))"
proof -
  have h0: "test_status (swept_n_r heisen_table) ! 0 \<noteq> test_failed"
    by (simp add: run_simps)
  have h1: "test_status (swept_n_r heisen_table) ! 1 = test_failed"
    by (simp add: run_simps)
  have n: "nb_test_tried (swept_n_r heisen_table) = 4" "nb_test_failed (swept_n_r heisen_table) = 1"
    by (simp_all add: run_simps)
  have l: "summary_line 4 1 = ''Tried 4 tests, 1 fails.'' @ [CHR 0x0A]"
    by (simp add: run_simps)
  from retry_pass_frame [of "swept_n_r heisen_table" 0 heisen_table]
    retry_pass_frame [of "swept_n_r heisen_table" 1 heisen_table] h0 h1 n l
  show ?thesis
    by simp
qed



end
